theory Spec2Isabelle
  imports Complex_Main "HOL-Library.AList"
begin

section \<open>Column identifiers: validation and sanitization\<close>

text \<open>
  A Python \<open>str\<close> is modelled as a \<open>string\<close>; one \<open>char\<close> stands for one code point, so
  \<open>length\<close> is Python's \<open>len\<close>. The character classes of the two regular expressions of
  \<open>mplusprep.py\<close> are ASCII classes, so a code point outside them is treated like any other
  character that is not a letter, a digit or the underscore.
\<close>

definition is_alpha :: "char \<Rightarrow> bool" where
  \<comment> \<open>the class \<open>[A-Za-z]\<close>\<close>
  "is_alpha ch = (ch \<in> set ''ABCDEFGHIJKLMNOPQRSTUVWXYZabcdefghijklmnopqrstuvwxyz'')"

definition is_word :: "char \<Rightarrow> bool" where
  \<comment> \<open>the class \<open>[A-Za-z0-9_]\<close>\<close>
  "is_word ch = (is_alpha ch \<or> ch \<in> set ''0123456789'' \<or> ch = CHR ''_'')"

definition isdigit :: "char \<Rightarrow> bool" where
  \<comment> \<open>\<open>str.isdigit\<close> on one code point below 256: the ASCII digits and the superscripts
      two, three and one\<close>
  "isdigit ch = (ch \<in> set ''0123456789'' \<or> ch \<in> {CHR 0xB2, CHR 0xB3, CHR 0xB9})"

fun re_match_name :: "string \<Rightarrow> bool" where
  \<comment> \<open>\<open>re.match(r"^[A-Za-z][A-Za-z0-9_]*$", c)\<close>; without the MULTILINE flag \<open>$\<close> matches at the
      end of the string and also just before a newline that ends the string\<close>
  "re_match_name [] = False"
| "re_match_name (x # xs) =
     (is_alpha x \<and>
      (list_all is_word xs \<or>
       (xs \<noteq> [] \<and> last xs = CHR ''\<newline>'' \<and> list_all is_word (butlast xs))))"

definition illegal_names :: "string list \<Rightarrow> string list" where
  "illegal_names cols = filter (\<lambda>c. \<not> re_match_name c \<or> 8 < length c) cols"

definition digit :: "nat \<Rightarrow> char" where
  "digit d = ''0123456789'' ! d"

fun str_nat :: "nat \<Rightarrow> string" where
  \<comment> \<open>\<open>str\<close> of a non-negative integer\<close>
  "str_nat n = (if n < 10 then [digit n] else str_nat (n div 10) @ [digit (n mod 10)])"

declare str_nat.simps [simp del]

text \<open>
  The dictionary \<open>mp\<close> is an association list in insertion order: assigning to a key that is
  present replaces its value in place, assigning to a new key appends, which is
  \<open>AList.update\<close>. The state of the loop of \<open>sanitize_names\<close> is the triple
  \<open>(mp, used, counter)\<close>.
\<close>

type_synonym rename_map = "(string \<times> string) list"

type_synonym san_state = "rename_map \<times> string set \<times> nat"

text \<open>
  Lines 34 and 35, \<open>while n in used: n = n[:7] + str(counter % 10)\<close>. The loop has no bound
  in the source, so it is a partial function: \<open>None\<close> is a run that never leaves the loop.
\<close>

partial_function (option) sanitize_while :: "string set \<Rightarrow> nat \<Rightarrow> string \<Rightarrow> string option" where
  "sanitize_while used counter n =
     (if n \<in> used then sanitize_while used counter (take 7 n @ str_nat (counter mod 10))
      else Some n)"

fun sanitize_body :: "string \<Rightarrow> san_state \<Rightarrow> san_state option" where
  \<comment> \<open>one iteration of \<open>for c in cols\<close>, lines 30 to 38\<close>
  "sanitize_body c (mp, used, counter) =
     (let n0 = filter is_word c;
          n1 = (if n0 = [] \<or> isdigit (hd n0) then ''v'' @ str_nat counter else n0);
          n2 = take 8 n1
      in (case sanitize_while used counter n2 of
            None \<Rightarrow> None
          | Some n \<Rightarrow> Some (AList.update c n mp, insert n used, counter + 1)))"

declare sanitize_body.simps [simp del]

fun sanitize_for :: "string list \<Rightarrow> san_state \<Rightarrow> san_state option" where
  "sanitize_for [] s = Some s"
| "sanitize_for (c # cs) s =
     (case sanitize_body c s of None \<Rightarrow> None | Some s' \<Rightarrow> sanitize_for cs s')"

definition sanitize_names :: "string list \<Rightarrow> rename_map option" where
  "sanitize_names cols = map_option fst (sanitize_for cols ([], {}, 1))"

text \<open>
  The Symbol Grammar in the words of the specification, to be compared with what the source
  computes: an identifier starts with a letter, contains only letters, digits and the
  underscore, and has at most 8 characters.
\<close>

definition symbol_grammar :: "string \<Rightarrow> bool" where
  "symbol_grammar c = (c \<noteq> [] \<and> is_alpha (hd c) \<and> list_all is_word c \<and> length c \<le> 8)"

text \<open>
  What the code establishes for a generated name by construction: it is not empty, has at
  most 8 characters, all of them letters, digits or underscores, and does not start with a
  digit. The Symbol Grammar asks for more, a letter in front.
\<close>

definition generated_shape :: "string \<Rightarrow> bool" where
  "generated_shape n = (n \<noteq> [] \<and> length n \<le> 8 \<and> list_all is_word n \<and> \<not> isdigit (hd n))"

text \<open>
  The invariant of the loop of \<open>sanitize_names\<close>: every assigned name is in \<open>used\<close>, the
  assigned names are pairwise distinct, and each has the shape above.
\<close>

definition san_inv :: "san_state \<Rightarrow> bool" where
  "san_inv s = (case s of (mp, used, counter) \<Rightarrow>
     snd ` set mp \<subseteq> used \<and> distinct (map snd mp) \<and> list_all generated_shape (map snd mp))"

section \<open>The model-specification scripts\<close>

fun join :: "string \<Rightarrow> string list \<Rightarrow> string" where
  \<comment> \<open>\<open>sep.join(xs)\<close>\<close>
  "join sep [] = []"
| "join sep [x] = x"
| "join sep (x # y # ys) = x @ sep @ join sep (y # ys)"

function slices :: "nat \<Rightarrow> 'a list \<Rightarrow> 'a list list" where
  \<comment> \<open>\<open>[names[i:i + per_line] for i in range(0, len(names), per_line)]\<close>; \<open>fmt_names\<close> is
      only called with its default \<open>per_line=5\<close>, so the step is never 0\<close>
  "slices k xs = (if xs = [] \<or> k = 0 then [] else take k xs # slices k (drop k xs))"
  by pat_completeness auto
termination
  by (relation "measure (\<lambda>(k, xs). length xs)") auto

declare slices.simps [simp del]

definition fmt_names :: "string list \<Rightarrow> string" where
  "fmt_names names =
     join ''\<newline>'' (map (\<lambda>l. ''    '' @ l) (map (join '' '') (slices 5 names)))"

text \<open>
  A table is its ordered column identifiers and its rows. A file of the run holds either
  the text the program writes itself (the script) or the frame it hands to pandas'
  \<open>to_csv\<close>: the table without header for the data file, the pairs of the rename mapping
  under the header \<open>original,mplus\<close> for the audit file. The file system is a map from
  paths to files.
\<close>

record 'a table =
  columns :: "string list"
  rows :: "'a list list"

datatype 'a artifact =
    DatFile "'a table"
  | InpFile string
  | MapFile rename_map

type_synonym 'a files = "string \<rightharpoonup> 'a artifact"

datatype error =
    NamingError \<comment> \<open>the \<open>ValueError\<close> of line 82: the user declined the renaming\<close>
  | UnpackError \<comment> \<open>the \<open>ValueError\<close> of the tuple assignments of lines 49 and 61, when
      the table has fewer columns than the template has roles\<close>

definition med_script :: "string \<Rightarrow> string \<Rightarrow> string \<Rightarrow> string list \<Rightarrow> string \<Rightarrow> string" where
  \<comment> \<open>the writes of lines 51 to 58, in order\<close>
  "med_script X M Y names dat_abs = concat
     [''TITLE: Simple mediation model (X M Y);\<newline>\<newline>'',
      ''DATA:\<newline>'', ''  FILE = '' @ dat_abs @ '';\<newline>\<newline>'',
      ''VARIABLE:\<newline>  NAMES =\<newline>'', fmt_names names, '';\<newline>\<newline>'',
      ''  USEVARIABLES = '' @ X @ '' '' @ M @ '' '' @ Y @ '';\<newline>\<newline>'',
      ''ANALYSIS:\<newline>  ESTIMATOR = MLR;\<newline>  BOOTSTRAP = 5000;\<newline>\<newline>'',
      ''MODEL:\<newline>'',
      ''  '' @ M @ '' ON '' @ X @ '' (a);\<newline>'',
      ''  '' @ Y @ '' ON '' @ M @ '' (b);\<newline>'',
      ''  '' @ Y @ '' ON '' @ X @ '' (c);\<newline>\<newline>'',
      ''MODEL CONSTRAINT:\<newline>  NEW(DIRECT INDIRECT TOTAL);\<newline>  INDIRECT = a*b;\<newline>  DIRECT = c;\<newline>  TOTAL = DIRECT + INDIRECT;\<newline>\<newline>'',
      ''OUTPUT:\<newline>  STANDARDIZED CINTERVAL(BOOTSTRAP);\<newline>'']"

definition write_inp_med :: "'a table \<Rightarrow> string \<Rightarrow> string \<Rightarrow> 'a files \<Rightarrow> error + 'a files" where
  \<comment> \<open>the file is opened after the tuple assignment, so a failed assignment writes nothing\<close>
  "write_inp_med df out dat_abs fs =
     (case take 3 (columns df) of
        [X, M, Y] \<Rightarrow> Inr (fs(out \<mapsto> InpFile (med_script X M Y (columns df) dat_abs)))
      | _ \<Rightarrow> Inl UnpackError)"

definition mod_script :: "string \<Rightarrow> string \<Rightarrow> string \<Rightarrow> string \<Rightarrow> string list \<Rightarrow> string \<Rightarrow> string" where
  \<comment> \<open>the writes of lines 63 to 71, in order\<close>
  "mod_script X M Y W names dat_abs = concat
     [''TITLE: Moderated mediation model;\<newline>\<newline>'',
      ''DATA:\<newline>'', ''  FILE = '' @ dat_abs @ '';\<newline>\<newline>'',
      ''VARIABLE:\<newline>  NAMES =\<newline>'', fmt_names names, '';\<newline>\<newline>'',
      ''  USEVARIABLES = '' @ X @ '' '' @ M @ '' '' @ Y @ '' '' @ W @ '' XW;\<newline>\<newline>'',
      ''DEFINE:\<newline>'', ''  XW = '' @ X @ ''*'' @ W @ '';\<newline>\<newline>'',
      ''ANALYSIS:\<newline>  ESTIMATOR = MLR;\<newline>  BOOTSTRAP = 5000;\<newline>\<newline>'',
      ''MODEL:\<newline>'',
      ''  '' @ M @ '' ON '' @ X @ '' (a1) '' @ W @ '' (a2) XW (a3);\<newline>'',
      ''  '' @ Y @ '' ON '' @ M @ '' (b) '' @ X @ '';\<newline>\<newline>'',
      ''MODEL CONSTRAINT:\<newline>  NEW(INDIRECT);\<newline>  INDIRECT = (a1 + a3*0)*b;\<newline>\<newline>'',
      ''OUTPUT:\<newline>  STANDARDIZED CINTERVAL(BOOTSTRAP);\<newline>'']"

definition write_inp_mod :: "'a table \<Rightarrow> string \<Rightarrow> string \<Rightarrow> 'a files \<Rightarrow> error + 'a files" where
  "write_inp_mod df out dat_abs fs =
     (case take 4 (columns df) of
        [X, M, Y, W] \<Rightarrow> Inr (fs(out \<mapsto> InpFile (mod_script X M Y W (columns df) dat_abs)))
      | _ \<Rightarrow> Inl UnpackError)"

definition mod_indirect :: "real \<Rightarrow> real \<Rightarrow> real \<Rightarrow> real" where
  \<comment> \<open>the right-hand side of the constraint written at line 70,
      \<open>INDIRECT = (a1 + a3*0)*b\<close>, read as arithmetic on the coefficients\<close>
  "mod_indirect a1 a3 b = (a1 + a3 * 0) * b"

section \<open>The conversion\<close>

text \<open>
  The conversion is modelled from the table on: \<open>read_data\<close> has returned it. What the
  program prints is left out, and a write to a file is taken to succeed.
\<close>

definition write_dat :: "'a table \<Rightarrow> string \<Rightarrow> 'a files \<Rightarrow> 'a files" where
  \<comment> \<open>\<open>df.to_csv(path, sep=" ", index=False, header=False, float_format="%.6f")\<close>; the
      text of the file \<open>DatFile df\<close> is \<open>to_csv df\<close> of the section on the data file\<close>
  "write_dat df path fs = fs(path \<mapsto> DatFile df)"

definition lower_chr :: "char \<Rightarrow> char" where
  "lower_chr ch =
     (case map_of (zip ''ABCDEFGHIJKLMNOPQRSTUVWXYZ'' ''abcdefghijklmnopqrstuvwxyz'') ch of
        Some l \<Rightarrow> l
      | None \<Rightarrow> ch)"

definition lower :: "string \<Rightarrow> string" where
  \<comment> \<open>\<open>str.lower\<close>; the program only compares the result with \<open>"y"\<close>, and the upper-case
      letter Y is the only other code point whose lower case is the letter y\<close>
  "lower s = map lower_chr s"

definition rename :: "'a table \<Rightarrow> rename_map \<Rightarrow> 'a table" where
  \<comment> \<open>\<open>df.rename(columns=mp)\<close>: a label that is a key of the mapping is replaced\<close>
  "rename df m =
     df\<lparr>columns := map (\<lambda>c. case map_of m c of Some v \<Rightarrow> v | None \<Rightarrow> c) (columns df)\<rparr>"

datatype outcome = Completed | Raised error

definition convert_write ::
  "(string \<Rightarrow> string) \<Rightarrow> 'a table \<Rightarrow> rename_map option \<Rightarrow> string \<Rightarrow> string \<Rightarrow> 'a files
     \<Rightarrow> outcome \<times> 'a files" where
  \<comment> \<open>lines 89 to 97 of \<open>convert\<close>; \<open>abspath\<close> is \<open>os.path.abspath\<close> in the working directory
      of the run, and \<open>if mp:\<close> holds for a mapping that is neither \<open>None\<close> nor empty\<close>
  "convert_write abspath df mp prefix mode fs =
     (let dat = prefix @ ''.dat'';
          inp_file = prefix @ ''.inp'';
          fs1 = write_dat df dat fs;
          dat_abs = abspath dat
      in (case (if mode = ''w'' then write_inp_mod else write_inp_med) df inp_file dat_abs fs1 of
            Inl e \<Rightarrow> (Raised e, fs1)
          | Inr fs2 \<Rightarrow>
              (if mp \<noteq> None \<and> mp \<noteq> Some []
               then (Completed, fs2(prefix @ ''_variable_map.csv'' \<mapsto> MapFile (the mp)))
               else (Completed, fs2))))"

definition convert ::
  "(string \<Rightarrow> string) \<Rightarrow> string \<Rightarrow> 'a table \<Rightarrow> string \<Rightarrow> string \<Rightarrow> 'a files
     \<Rightarrow> (outcome \<times> 'a files) option" where
  \<comment> \<open>\<open>convert\<close> from line 75 on: \<open>df\<close> is the table \<open>read_data\<close> returned, \<open>answer\<close> is what
      the user types at the prompt of line 81; \<open>None\<close> is a run that never returns\<close>
  "convert abspath answer df prefix mode fs =
     (if illegal_names (columns df) \<noteq> [] then
        (if lower answer \<noteq> ''y'' then Some (Raised NamingError, fs)
         else (case sanitize_names (columns df) of
                 None \<Rightarrow> None
               | Some m \<Rightarrow> Some (convert_write abspath (rename df m) (Some m) prefix mode fs)))
      else Some (convert_write abspath df None prefix mode fs))"

definition artifact_at :: "string \<Rightarrow> (outcome \<times> 'a files) option \<Rightarrow> 'a artifact option" where
  \<comment> \<open>the file found at a path when the run is over\<close>
  "artifact_at path r = (case r of None \<Rightarrow> None | Some res \<Rightarrow> snd res path)"

section \<open>Reading a CSV file\<close>






section \<open>The data file\<close>








text \<open>
  Minimal quoting: a field is put in double quotes when it holds the separator, the quote
  character or a character of the line terminator, and a quote character inside it is
  doubled. A row that is one empty field is written as two quote characters. The line
  terminator is \<open>os.linesep\<close>, here the newline.
\<close>

definition dquote :: char where
  "dquote = CHR 0x22"





text \<open>
  Reading the file back: its lines, each ended by a newline, and the fields of a line that
  whitespace separates, as \<open>str.split\<close> without argument finds them (\<open>is_space\<close> is
  \<open>str.isspace\<close> on one code point below 256).
\<close>

definition is_space :: "char \<Rightarrow> bool" where
  "is_space ch = (ch \<in> {CHR 0x09, CHR 0x0A, CHR 0x0B, CHR 0x0C, CHR 0x0D, CHR 0x1C, CHR 0x1D,
     CHR 0x1E, CHR 0x1F, CHR 0x20, CHR 0x85, CHR 0xA0})"





text \<open>
  The cells for which the data file is what the specification describes: integers, floats
  and texts that are not empty and hold neither whitespace nor a double quote. The other
  two predicates say what the text of a number looks like: an optional minus, digits, and
  for \<open>fixed6\<close> a point and exactly six digits.
\<close>

definition solid :: "string \<Rightarrow> bool" where
  "solid f = (f \<noteq> [] \<and> list_all (\<lambda>ch. \<not> is_space ch \<and> ch \<noteq> dquote) f)"


definition is_dec :: "char \<Rightarrow> bool" where
  "is_dec ch = (ch \<in> set ''0123456789'')"



section \<open>Properties of the sanitizer\<close>

lemma sanitize_while_free: "n \<notin> used \<Longrightarrow> sanitize_while used counter n = Some n"
  by (subst sanitize_while.simps) simp

lemma sanitize_while_stuck:
  assumes "n \<in> used" and "take 7 n @ str_nat (counter mod 10) = n"
  shows "sanitize_while used counter n = None"
proof (cases "sanitize_while used counter n")
  case None
  then show ?thesis .
next
  case (Some y)
  have "sanitize_while u k m = Some z \<Longrightarrow> (u, k, m) \<noteq> (used, counter, n)" for u k m z
    by (rule sanitize_while.raw_induct
          [where P = "\<lambda>u k m z. (u, k, m) \<noteq> (used, counter, n)"])
       (use assms in \<open>auto split: if_splits\<close>)
  with Some show ?thesis by blast
qed

text \<open>
  C2. The claim: on every list of column identifiers the retry loop of \<open>sanitize_names\<close>
  terminates, so a result is returned. The code at the list \<open>abcdefg2\<close>, \<open>abcdefg2!\<close>: the
  second identifier is stripped to the name assigned to the first, the counter is 2, and
  replacing the eighth character by the digit 2 gives the same name again, so the loop
  never ends and no mapping is returned.
\<close>

theorem sanitize_names_diverges:
  "sanitize_names [''abcdefg2'', ''abcdefg2!''] = None"
proof -
  have first: "sanitize_body ''abcdefg2'' ([], {}, 1)
      = Some ([(''abcdefg2'', ''abcdefg2'')], {''abcdefg2''}, 2)"
    by (simp add: sanitize_body.simps Let_def is_word_def is_alpha_def isdigit_def
          sanitize_while_free)
  have stuck: "sanitize_while {''abcdefg2''} 2 ''abcdefg2'' = None"
    by (rule sanitize_while_stuck) (simp_all add: str_nat.simps digit_def)
  have second: "sanitize_body ''abcdefg2!'' ([(''abcdefg2'', ''abcdefg2'')], {''abcdefg2''}, 2)
      = None"
    by (simp add: sanitize_body.simps Let_def is_word_def is_alpha_def isdigit_def stuck)
  show ?thesis
    unfolding sanitize_names_def
    by (simp only: sanitize_for.simps first second option.case option.map)
qed

lemma alpha_not_digit: "is_alpha ch \<Longrightarrow> \<not> isdigit ch"
  by (auto simp: is_alpha_def isdigit_def)

lemma update_fresh: "c \<notin> fst ` set mp \<Longrightarrow> AList.update c n mp = mp @ [(c, n)]"
  by (induction mp) auto

lemma sanitize_body_legal:
  assumes "symbol_grammar c" and "c \<notin> used"
  shows "sanitize_body c (mp, used, counter) = Some (AList.update c c mp, insert c used, counter + 1)"
proof -
  from assms(1) have ne: "c \<noteq> []" and al: "is_alpha (hd c)" and w: "list_all is_word c"
    and len: "length c \<le> 8"
    by (simp_all add: symbol_grammar_def)
  from w have f: "filter is_word c = c"
    by (simp add: list_all_iff)
  from al have nd: "\<not> isdigit (hd c)"
    by (rule alpha_not_digit)
  show ?thesis
    by (simp add: sanitize_body.simps Let_def f ne nd len sanitize_while_free [OF assms(2)])
qed

lemma sanitize_for_legal:
  assumes "distinct cols" and "\<forall>c\<in>set cols. symbol_grammar c"
    and "set cols \<inter> used = {}" and "set cols \<inter> fst ` set mp = {}"
  shows "sanitize_for cols (mp, used, counter)
    = Some (mp @ map (\<lambda>c. (c, c)) cols, used \<union> set cols, counter + length cols)"
  using assms
proof (induction cols arbitrary: mp used counter)
  case Nil
  then show ?case by simp
next
  case (Cons c cs)
  from Cons.prems have body: "sanitize_body c (mp, used, counter)
      = Some (mp @ [(c, c)], insert c used, counter + 1)"
    by (simp add: sanitize_body_legal update_fresh)
  have "sanitize_for cs (mp @ [(c, c)], insert c used, counter + 1)
      = Some ((mp @ [(c, c)]) @ map (\<lambda>c. (c, c)) cs, insert c used \<union> set cs,
          (counter + 1) + length cs)"
    using Cons.prems by (intro Cons.IH) auto
  with body show ?case by simp
qed

text \<open>
  C8. Sanitizing a list of pairwise distinct identifiers that all satisfy the Symbol Grammar
  returns, and the mapping it returns sends every identifier to itself, in the order of the
  list.
\<close>

theorem sanitize_names_idempotent:
  assumes "distinct cols" and "\<forall>c\<in>set cols. symbol_grammar c"
  shows "sanitize_names cols = Some (map (\<lambda>c. (c, c)) cols)"
  using sanitize_for_legal [OF assms, of "{}" "[]" 1]
  by (simp add: sanitize_names_def)

lemma symbol_grammar_examples:
  "symbol_grammar ''X'' \<and> symbol_grammar ''M_2'' \<and> symbol_grammar ''Income''"
  by (simp add: symbol_grammar_def is_alpha_def is_word_def)

theorem sanitize_names_idempotent_witness:
  "sanitize_names [''X'', ''M_2'', ''Income'']
     = Some [(''X'', ''X''), (''M_2'', ''M_2''), (''Income'', ''Income'')]"
  using sanitize_names_idempotent [of "[''X'', ''M_2'', ''Income'']"]
  by (simp add: symbol_grammar_examples)

text \<open>
  C3. The claim: on every list of column identifiers \<open>sanitize_names\<close> produces a mapping
  with pairwise distinct values, each satisfying the Symbol Grammar, and with as many entries
  as the list. The code at the one-column list \<open>_a\<close>: the underscore survives the stripping,
  the name is neither empty nor led by a digit, so it is kept as it is, and the mapping
  sends \<open>_a\<close> to \<open>_a\<close>, which does not start with a letter.
\<close>

theorem sanitize_names_underscore:
  "sanitize_names [''_a''] = Some [(''_a'', ''_a'')] \<and> \<not> symbol_grammar ''_a''"
proof -
  have "sanitize_body ''_a'' ([], {}, 1) = Some ([(''_a'', ''_a'')], {''_a''}, 2)"
    by (simp add: sanitize_body.simps Let_def is_word_def is_alpha_def isdigit_def
          sanitize_while_free)
  then have "sanitize_names [''_a''] = Some [(''_a'', ''_a'')]"
    unfolding sanitize_names_def
    by (simp only: sanitize_for.simps option.case option.map fst_conv)
  moreover have "\<not> symbol_grammar ''_a''"
    by (simp add: symbol_grammar_def is_alpha_def)
  ultimately show ?thesis by simp
qed

text \<open>
  The Symbol Grammar against \<open>illegal_names\<close>: an identifier that satisfies the grammar is
  never reported. The regular expression also lets through an identifier with one newline
  at its end, which the grammar rejects, and it reports an identifier led by an underscore.
\<close>

lemma symbol_grammar_legal:
  assumes "\<forall>c\<in>set cols. symbol_grammar c"
  shows "illegal_names cols = []"
proof -
  have "re_match_name c \<and> length c \<le> 8" if "symbol_grammar c" for c
  proof (cases c)
    case Nil
    with that show ?thesis by (simp add: symbol_grammar_def)
  next
    case (Cons x xs)
    with that show ?thesis by (simp add: symbol_grammar_def)
  qed
  with assms have "\<forall>c\<in>set cols. \<not> (\<not> re_match_name c \<or> 8 < length c)"
    by (auto simp: not_less)
  then show ?thesis
    unfolding illegal_names_def by (simp only: filter_empty_conv)
qed

lemma illegal_names_trailing_newline:
  "illegal_names [''ab\<newline>''] = [] \<and> \<not> symbol_grammar ''ab\<newline>''"
  by (simp add: illegal_names_def symbol_grammar_def is_alpha_def is_word_def)

lemma illegal_names_underscore: "illegal_names [''_a''] = [''_a'']"
  by (simp add: illegal_names_def is_alpha_def)

lemma sanitize_body_keys:
  assumes "sanitize_body c (mp, used, counter) = Some (mp', used', counter')"
  shows "fst ` set mp' = insert c (fst ` set mp)"
proof -
  from assms obtain n where "mp' = AList.update c n mp"
    by (auto simp: sanitize_body.simps Let_def split: option.splits)
  then show ?thesis
    by (simp only: AList.dom_update) simp
qed

lemma sanitize_for_keys:
  "sanitize_for cols (mp, used, counter) = Some (mp', used', counter')
     \<Longrightarrow> fst ` set mp' = fst ` set mp \<union> set cols"
proof (induction cols arbitrary: mp used counter)
  case Nil
  then show ?case by simp
next
  case (Cons c cs)
  from Cons.prems obtain mp1 used1 counter1
    where body: "sanitize_body c (mp, used, counter) = Some (mp1, used1, counter1)"
      and rest: "sanitize_for cs (mp1, used1, counter1) = Some (mp', used', counter')"
    by (auto split: option.splits)
  from Cons.IH [OF rest] sanitize_body_keys [OF body] show ?case by auto
qed

lemma sanitize_names_keys:
  assumes "sanitize_names cols = Some m"
  shows "fst ` set m = set cols"
proof -
  from assms obtain used' counter'
    where "sanitize_for cols ([], {}, 1) = Some (m, used', counter')"
    by (auto simp: sanitize_names_def)
  from sanitize_for_keys [OF this] show ?thesis by simp
qed

text \<open>
  What \<open>sanitize_names\<close> does guarantee whenever it returns: the generated names are pairwise
  distinct and have the generated shape, and for pairwise distinct column identifiers the
  mapping has one entry per identifier, in the order of the list.
\<close>

lemma str_nat_digit: "d < 10 \<Longrightarrow> str_nat d = [digit d]"
  by (simp add: str_nat.simps)

lemma is_word_digit: "d < 10 \<Longrightarrow> is_word (digit d)"
proof -
  assume "d < 10"
  then have "''0123456789'' ! d \<in> set ''0123456789''"
    by (intro nth_mem) simp
  then show ?thesis
    by (simp only: is_word_def digit_def) simp
qed

lemma is_word_str_nat: "list_all is_word (str_nat k)"
proof (induction k rule: str_nat.induct)
  case (1 n)
  show ?case
  proof (cases "n < 10")
    case True
    then show ?thesis by (simp add: str_nat_digit is_word_digit)
  next
    case False
    with 1 have "list_all is_word (str_nat (n div 10))" by simp
    moreover have "is_word (digit (n mod 10))" by (simp add: is_word_digit)
    ultimately show ?thesis using False by (subst str_nat.simps) simp
  qed
qed

lemma generated_shape_perturb:
  assumes "generated_shape n"
  shows "generated_shape (take 7 n @ str_nat (counter mod 10))"
proof -
  from assms have ne: "n \<noteq> []" and w: "list_all is_word n" and nd: "\<not> isdigit (hd n)"
    by (simp_all add: generated_shape_def)
  from ne have hd: "hd (take 7 n @ str_nat (counter mod 10)) = hd n"
    by (cases n) simp_all
  from w have "list_all is_word (take 7 n)"
    by (auto simp: list_all_iff dest: in_set_takeD)
  then show ?thesis
    using ne nd unfolding generated_shape_def hd
    by (simp add: str_nat_digit is_word_digit)
qed

lemma sanitize_while_result:
  assumes "sanitize_while used counter n = Some n'"
  shows "n' \<notin> used \<and> (generated_shape n \<longrightarrow> generated_shape n')"
proof (rule sanitize_while.raw_induct
    [where P = "\<lambda>u k m m'. m' \<notin> u \<and> (generated_shape m \<longrightarrow> generated_shape m')",
      OF _ assms])
  fix f u k m m'
  assume IH: "\<And>u k m m'. f u k m = Some m'
      \<Longrightarrow> m' \<notin> u \<and> (generated_shape m \<longrightarrow> generated_shape m')"
    and step: "(if m \<in> u then f u k (take 7 m @ str_nat (k mod 10)) else Some m) = Some m'"
  show "m' \<notin> u \<and> (generated_shape m \<longrightarrow> generated_shape m')"
  proof (cases "m \<in> u")
    case True
    with step have "f u k (take 7 m @ str_nat (k mod 10)) = Some m'" by simp
    from IH [OF this] show ?thesis
      by (auto intro: generated_shape_perturb)
  next
    case False
    with step show ?thesis by simp
  qed
qed

lemma generated_shape_candidate:
  "generated_shape (take 8 (if filter is_word c = [] \<or> isdigit (hd (filter is_word c))
     then ''v'' @ str_nat counter else filter is_word c))"
proof (cases "filter is_word c = [] \<or> isdigit (hd (filter is_word c))")
  case True
  have "list_all is_word (take 7 (str_nat counter))"
    using is_word_str_nat [of counter] by (auto simp: list_all_iff dest: in_set_takeD)
  with True show ?thesis
    by (simp add: generated_shape_def is_word_def is_alpha_def isdigit_def)
next
  case False
  then obtain x xs where f: "filter is_word c = x # xs" and nd: "\<not> isdigit x"
    by (cases "filter is_word c") auto
  have "list_all is_word (filter is_word c)"
    by (simp add: list_all_iff)
  with f have "is_word x" "list_all is_word (take 7 xs)"
    by (auto simp: list_all_iff dest: in_set_takeD)
  with False f nd show ?thesis
    by (simp add: generated_shape_def)
qed

lemma update_values: "snd ` set (AList.update k v al) \<subseteq> insert v (snd ` set al)"
  by (induction al) auto

lemma update_values_distinct:
  "v \<notin> snd ` set al \<Longrightarrow> distinct (map snd al) \<Longrightarrow> distinct (map snd (AList.update k v al))"
proof (induction al)
  case Nil
  then show ?case by simp
next
  case (Cons a al)
  obtain k' v' where a: "a = (k', v')" by (cases a)
  show ?case
  proof (cases "k' = k")
    case True
    with Cons.prems a show ?thesis by auto
  next
    case False
    from Cons.prems a have "v' \<notin> insert v (snd ` set al)" by auto
    with update_values [of k v al] have "v' \<notin> snd ` set (AList.update k v al)" by blast
    with Cons a False show ?thesis by auto
  qed
qed

lemma sanitize_body_inv:
  assumes "sanitize_body c s = Some s'" and "san_inv s"
  shows "san_inv s'"
proof -
  obtain mp used counter where s: "s = (mp, used, counter)" by (cases s)
  from assms(1) obtain n where n: "sanitize_while used counter
      (take 8 (if filter is_word c = [] \<or> isdigit (hd (filter is_word c))
         then ''v'' @ str_nat counter else filter is_word c)) = Some n"
    and s': "s' = (AList.update c n mp, insert n used, counter + 1)"
    unfolding s by (auto simp: sanitize_body.simps Let_def split: option.splits)
  from sanitize_while_result [OF n] generated_shape_candidate
  have fresh: "n \<notin> used" and shape: "generated_shape n" by auto
  from assms(2) have sub: "snd ` set mp \<subseteq> used" and d: "distinct (map snd mp)"
    and sh: "list_all generated_shape (map snd mp)"
    by (simp_all add: san_inv_def s)
  from fresh sub have "n \<notin> snd ` set mp" by blast
  from update_values_distinct [OF this d] have d': "distinct (map snd (AList.update c n mp))" .
  from update_values [of c n mp] sub
  have sub': "snd ` set (AList.update c n mp) \<subseteq> insert n used" by blast
  have sh': "list_all generated_shape (map snd (AList.update c n mp))"
    unfolding list_all_iff
  proof
    fix v
    assume "v \<in> set (map snd (AList.update c n mp))"
    with update_values [of c n mp] have "v = n \<or> v \<in> set (map snd mp)" by auto
    with sh shape show "generated_shape v" by (auto simp: list_all_iff)
  qed
  from d' sub' sh' show ?thesis by (simp add: san_inv_def s')
qed

lemma sanitize_for_inv: "sanitize_for cols s = Some s' \<Longrightarrow> san_inv s \<Longrightarrow> san_inv s'"
proof (induction cols arbitrary: s)
  case Nil
  then show ?case by simp
next
  case (Cons c cs)
  from Cons.prems(1) obtain s1 where b: "sanitize_body c s = Some s1"
    and r: "sanitize_for cs s1 = Some s'"
    by (auto split: option.splits)
  from Cons.IH [OF r sanitize_body_inv [OF b Cons.prems(2)]] show ?case .
qed

lemma sanitize_names_values:
  assumes "sanitize_names cols = Some m"
  shows "distinct (map snd m) \<and> list_all generated_shape (map snd m)"
proof -
  from assms obtain used' counter'
    where "sanitize_for cols ([], {}, 1) = Some (m, used', counter')"
    by (auto simp: sanitize_names_def)
  from sanitize_for_inv [OF this] show ?thesis by (simp add: san_inv_def)
qed

lemma sanitize_for_keys_distinct:
  "sanitize_for cols (mp, used, counter) = Some (mp', used', counter') \<Longrightarrow> distinct cols
     \<Longrightarrow> set cols \<inter> fst ` set mp = {} \<Longrightarrow> map fst mp' = map fst mp @ cols"
proof (induction cols arbitrary: mp used counter)
  case Nil
  then show ?case by simp
next
  case (Cons c cs)
  from Cons.prems(1) obtain n where
    r: "sanitize_for cs (AList.update c n mp, insert n used, counter + 1) = Some (mp', used', counter')"
    by (auto simp: sanitize_body.simps Let_def split: option.splits)
  from Cons.prems(3) have u: "AList.update c n mp = mp @ [(c, n)]"
    by (simp add: update_fresh)
  from Cons.prems have "set cs \<inter> fst ` set (AList.update c n mp) = {}"
    unfolding u by auto
  from Cons.IH [OF r _ this] Cons.prems(2) show ?case
    unfolding u by simp
qed

lemma sanitize_names_keys_distinct:
  assumes "sanitize_names cols = Some m" and "distinct cols"
  shows "map fst m = cols"
proof -
  from assms(1) obtain used' counter'
    where "sanitize_for cols ([], {}, 1) = Some (m, used', counter')"
    by (auto simp: sanitize_names_def)
  from sanitize_for_keys_distinct [OF this assms(2)] show ?thesis by simp
qed

lemma sanitize_for_keys_unique:
  "sanitize_for cols (mp, used, counter) = Some (mp', used', counter')
     \<Longrightarrow> distinct (map fst mp) \<Longrightarrow> distinct (map fst mp')"
proof (induction cols arbitrary: mp used counter)
  case Nil
  then show ?case by simp
next
  case (Cons c cs)
  from Cons.prems(1) obtain n where
    r: "sanitize_for cs (AList.update c n mp, insert n used, counter + 1) = Some (mp', used', counter')"
    by (auto simp: sanitize_body.simps Let_def split: option.splits)
  from Cons.prems(2) have "distinct (map fst (AList.update c n mp))"
    by (rule AList.distinct_update)
  from Cons.IH [OF r this] show ?case .
qed

lemma sanitize_names_keys_unique:
  assumes "sanitize_names cols = Some m"
  shows "distinct (map fst m)"
proof -
  from assms obtain used' counter'
    where "sanitize_for cols ([], {}, 1) = Some (m, used', counter')"
    by (auto simp: sanitize_names_def)
  from sanitize_for_keys_unique [OF this] show ?thesis by simp
qed

section \<open>Properties of the scripts\<close>

lemma take3_cols:
  assumes "3 \<le> length cs"
  shows "take 3 cs = [cs ! 0, cs ! 1, cs ! 2]"
proof -
  from assms obtain x y z r where "cs = x # y # z # r"
    by (cases cs; cases "tl cs"; cases "tl (tl cs)") auto
  then show ?thesis by simp
qed

lemma take4_cols:
  assumes "4 \<le> length cs"
  shows "take 4 cs = [cs ! 0, cs ! 1, cs ! 2, cs ! 3]"
proof -
  from assms obtain x y z w r where "cs = x # y # z # w # r"
    by (cases cs; cases "tl cs"; cases "tl (tl cs)"; cases "tl (tl (tl cs))") auto
  then show ?thesis by simp
qed

lemma write_inp_med_enough:
  "3 \<le> length (columns df) \<Longrightarrow> write_inp_med df out dat_abs fs = Inr (fs(out \<mapsto>
      InpFile (med_script (columns df ! 0) (columns df ! 1) (columns df ! 2) (columns df) dat_abs)))"
  by (simp only: write_inp_med_def take3_cols list.case)

lemma write_inp_mod_enough:
  "4 \<le> length (columns df) \<Longrightarrow> write_inp_mod df out dat_abs fs = Inr (fs(out \<mapsto>
      InpFile (mod_script (columns df ! 0) (columns df ! 1) (columns df ! 2) (columns df ! 3)
        (columns df) dat_abs)))"
  by (simp only: write_inp_mod_def take4_cols list.case)

text \<open>
  C6. For a table with at least 3 columns the mediation renderer writes exactly this script:
  the title, the data file, the listing of all names, the usage line with the first three
  columns in table order and nothing else, the analysis section, three regressions and no
  more (mediator on predictor labelled a, outcome on mediator labelled b, outcome on
  predictor labelled c), the constraint section with \<open>INDIRECT = a*b\<close>, \<open>DIRECT = c\<close> and
  \<open>TOTAL = DIRECT + INDIRECT\<close>, and the output section.
\<close>

theorem write_inp_med_script:
  assumes "3 \<le> length (columns df)"
  shows "write_inp_med df out dat_abs fs = Inr (fs(out \<mapsto> InpFile (concat
     [''TITLE: Simple mediation model (X M Y);\<newline>\<newline>'',
      ''DATA:\<newline>'', ''  FILE = '' @ dat_abs @ '';\<newline>\<newline>'',
      ''VARIABLE:\<newline>  NAMES =\<newline>'', fmt_names (columns df), '';\<newline>\<newline>'',
      ''  USEVARIABLES = '' @ columns df ! 0 @ '' '' @ columns df ! 1 @ '' '' @ columns df ! 2
        @ '';\<newline>\<newline>'',
      ''ANALYSIS:\<newline>  ESTIMATOR = MLR;\<newline>  BOOTSTRAP = 5000;\<newline>\<newline>'',
      ''MODEL:\<newline>'',
      ''  '' @ columns df ! 1 @ '' ON '' @ columns df ! 0 @ '' (a);\<newline>'',
      ''  '' @ columns df ! 2 @ '' ON '' @ columns df ! 1 @ '' (b);\<newline>'',
      ''  '' @ columns df ! 2 @ '' ON '' @ columns df ! 0 @ '' (c);\<newline>\<newline>'',
      ''MODEL CONSTRAINT:\<newline>  NEW(DIRECT INDIRECT TOTAL);\<newline>  INDIRECT = a*b;\<newline>  DIRECT = c;\<newline>  TOTAL = DIRECT + INDIRECT;\<newline>\<newline>'',
      ''OUTPUT:\<newline>  STANDARDIZED CINTERVAL(BOOTSTRAP);\<newline>''])))"
  unfolding write_inp_med_enough [OF assms] med_script_def ..

lemma fmt_names_XMY: "fmt_names [''X'', ''M'', ''Y''] = ''    X M Y''"
  by (simp add: fmt_names_def slices.simps)

theorem write_inp_med_script_witness:
  "write_inp_med \<lparr>columns = [''X'', ''M'', ''Y''], rows = [[1, 2, 3], [4, 5, 6 :: int]]\<rparr>
      ''out.inp'' ''/work/out.dat'' Map.empty
    = Inr [''out.inp'' \<mapsto> InpFile
        ''TITLE: Simple mediation model (X M Y);\<newline>\<newline>DATA:\<newline>  FILE = /work/out.dat;\<newline>\<newline>VARIABLE:\<newline>  NAMES =\<newline>    X M Y;\<newline>\<newline>  USEVARIABLES = X M Y;\<newline>\<newline>ANALYSIS:\<newline>  ESTIMATOR = MLR;\<newline>  BOOTSTRAP = 5000;\<newline>\<newline>MODEL:\<newline>  M ON X (a);\<newline>  Y ON M (b);\<newline>  Y ON X (c);\<newline>\<newline>MODEL CONSTRAINT:\<newline>  NEW(DIRECT INDIRECT TOTAL);\<newline>  INDIRECT = a*b;\<newline>  DIRECT = c;\<newline>  TOTAL = DIRECT + INDIRECT;\<newline>\<newline>OUTPUT:\<newline>  STANDARDIZED CINTERVAL(BOOTSTRAP);\<newline>'']"
  using write_inp_med_script
    [of "\<lparr>columns = [''X'', ''M'', ''Y''], rows = [[1, 2, 3], [4, 5, 6 :: int]]\<rparr>"
      "''out.inp''" "''/work/out.dat''" Map.empty]
  by (simp add: fmt_names_XMY)

text \<open>
  C4. For a table with at least 4 columns the moderated-mediation renderer writes a script
  that, after the title, the data file and the listing of all names, consists of exactly
  this: the usage line with the first four columns and \<open>XW\<close>, the definition of \<open>XW\<close> as the
  product of the first and the fourth column, the analysis section, the regressions with
  the labels a1, a2, a3 and b, and the constraint \<open>INDIRECT = (a1 + a3*0)*b\<close>, in which a3 is
  multiplied by the literal 0, then the output section. Read as arithmetic, that formula is
  \<open>a1 * b\<close> whatever a3 is.
\<close>

theorem write_inp_mod_script:
  assumes "4 \<le> length (columns df)"
  shows "(\<exists>head. write_inp_mod df out dat_abs fs = Inr (fs(out \<mapsto> InpFile (head @ concat
     [''  USEVARIABLES = '' @ columns df ! 0 @ '' '' @ columns df ! 1 @ '' '' @ columns df ! 2
        @ '' '' @ columns df ! 3 @ '' XW;\<newline>\<newline>'',
      ''DEFINE:\<newline>'', ''  XW = '' @ columns df ! 0 @ ''*'' @ columns df ! 3 @ '';\<newline>\<newline>'',
      ''ANALYSIS:\<newline>  ESTIMATOR = MLR;\<newline>  BOOTSTRAP = 5000;\<newline>\<newline>'',
      ''MODEL:\<newline>'',
      ''  '' @ columns df ! 1 @ '' ON '' @ columns df ! 0 @ '' (a1) '' @ columns df ! 3
        @ '' (a2) XW (a3);\<newline>'',
      ''  '' @ columns df ! 2 @ '' ON '' @ columns df ! 1 @ '' (b) '' @ columns df ! 0
        @ '';\<newline>\<newline>'',
      ''MODEL CONSTRAINT:\<newline>  NEW(INDIRECT);\<newline>  INDIRECT = (a1 + a3*0)*b;\<newline>\<newline>'',
      ''OUTPUT:\<newline>  STANDARDIZED CINTERVAL(BOOTSTRAP);\<newline>'']))))
    \<and> mod_indirect a1 a3 b = a1 * b"
proof -
  let ?head = "concat
     [''TITLE: Moderated mediation model;\<newline>\<newline>'',
      ''DATA:\<newline>'', ''  FILE = '' @ dat_abs @ '';\<newline>\<newline>'',
      ''VARIABLE:\<newline>  NAMES =\<newline>'', fmt_names (columns df), '';\<newline>\<newline>'']"
  have "mod_indirect a1 a3 b = a1 * b"
    by (simp add: mod_indirect_def)
  then show ?thesis
    unfolding write_inp_mod_enough [OF assms] mod_script_def
    by (intro conjI exI [of _ ?head]) (simp_all only: concat.simps append_assoc append_Nil2)
qed


theorem write_inp_mod_script_witness:
  "\<exists>head. write_inp_mod \<lparr>columns = [''X'', ''M'', ''Y'', ''W''], rows = [[1, 2, 3, 4 :: int]]\<rparr>
      ''out.inp'' ''/work/out.dat'' Map.empty
    = Inr [''out.inp'' \<mapsto> InpFile (head @
        ''  USEVARIABLES = X M Y W XW;\<newline>\<newline>DEFINE:\<newline>  XW = X*W;\<newline>\<newline>ANALYSIS:\<newline>  ESTIMATOR = MLR;\<newline>  BOOTSTRAP = 5000;\<newline>\<newline>MODEL:\<newline>  M ON X (a1) W (a2) XW (a3);\<newline>  Y ON M (b) X;\<newline>\<newline>MODEL CONSTRAINT:\<newline>  NEW(INDIRECT);\<newline>  INDIRECT = (a1 + a3*0)*b;\<newline>\<newline>OUTPUT:\<newline>  STANDARDIZED CINTERVAL(BOOTSTRAP);\<newline>'')]"
  using write_inp_mod_script
    [of "\<lparr>columns = [''X'', ''M'', ''Y'', ''W''], rows = [[1, 2, 3, 4 :: int]]\<rparr>"
      "''out.inp''" "''/work/out.dat''" Map.empty, THEN conjunct1]
  by simp

section \<open>Properties of the data file\<close>

lemma is_dec_solid_char: "is_dec ch \<Longrightarrow> \<not> is_space ch \<and> ch \<noteq> dquote \<and> ch \<noteq> CHR ''-'' \<and> ch \<noteq> CHR ''.''"
  by (auto simp: is_dec_def is_space_def dquote_def)










lemma solid_dec: "xs \<noteq> [] \<Longrightarrow> list_all is_dec xs \<Longrightarrow> solid xs"
  by (auto simp: solid_def list_all_iff dest: is_dec_solid_char)























section \<open>Properties of the conversion\<close>

lemma write_inp_med_cases:
  "write_inp_med df out dat_abs fs = Inl UnpackError
   \<or> (\<exists>t. write_inp_med df out dat_abs fs = Inr (fs(out \<mapsto> InpFile t)))"
  by (auto simp: write_inp_med_def split: list.splits)

lemma write_inp_mod_cases:
  "write_inp_mod df out dat_abs fs = Inl UnpackError
   \<or> (\<exists>t. write_inp_mod df out dat_abs fs = Inr (fs(out \<mapsto> InpFile t)))"
  by (auto simp: write_inp_mod_def split: list.splits)

lemma write_inp_cases:
  "(if mode = ''w'' then write_inp_mod else write_inp_med) df out dat_abs fs = Inl UnpackError
   \<or> (\<exists>t. (if mode = ''w'' then write_inp_mod else write_inp_med) df out dat_abs fs
          = Inr (fs(out \<mapsto> InpFile t)))"
  using write_inp_med_cases [of df out dat_abs fs] write_inp_mod_cases [of df out dat_abs fs]
  by (cases "mode = ''w''") simp_all

lemma convert_write_dat:
  "snd (convert_write abspath df mp prefix mode fs) (prefix @ ''.dat'') = Some (DatFile df)"
  using write_inp_cases [of mode df "prefix @ ''.inp''" "abspath (prefix @ ''.dat'')"
      "write_dat df (prefix @ ''.dat'') fs"]
  by (auto simp: convert_write_def Let_def write_dat_def)

lemma convert_write_no_map:
  "snd (convert_write abspath df None prefix mode fs) (prefix @ ''_variable_map.csv'')
     = fs (prefix @ ''_variable_map.csv'')"
  using write_inp_cases [of mode df "prefix @ ''.inp''" "abspath (prefix @ ''.dat'')"
      "write_dat df (prefix @ ''.dat'') fs"]
  by (auto simp: convert_write_def Let_def write_dat_def)

lemma length_columns_rename: "length (columns (rename df m)) = length (columns df)"
  by (simp add: rename_def)

lemma convert_write_map:
  assumes "m \<noteq> []" and "(if mode = ''w'' then 4 else 3) \<le> length (columns df)"
  shows "snd (convert_write abspath df (Some m) prefix mode fs)
           (prefix @ ''_variable_map.csv'') = Some (MapFile m)"
proof (cases "mode = ''w''")
  case True
  with assms(2) have "4 \<le> length (columns df)" by simp
  from write_inp_mod_enough [OF this] True assms(1) show ?thesis
    by (simp add: convert_write_def Let_def)
next
  case False
  with assms(2) have "3 \<le> length (columns df)" by simp
  from write_inp_med_enough [OF this] False assms(1) show ?thesis
    by (simp add: convert_write_def Let_def)
qed

lemma convert_consented:
  assumes "illegal_names (columns df) \<noteq> []" and "lower answer = ''y''"
    and "sanitize_names (columns df) = Some m"
  shows "convert abspath answer df prefix mode fs
    = Some (convert_write abspath (rename df m) (Some m) prefix mode fs)"
  using assms by (simp add: convert_def)

lemma lower_y: "lower ''y'' = ''y''"
  by (simp add: lower_def lower_chr_def)

lemma lower_Y: "lower ''Y'' = ''y''"
  by (simp add: lower_def lower_chr_def)

lemma illegal_names_scenario:
  "illegal_names [''1stVar'', ''Income(USD)'', ''Y''] = [''1stVar'', ''Income(USD)'']"
  by (simp add: illegal_names_def is_alpha_def is_word_def)

lemma sanitize_names_scenario:
  "sanitize_names [''1stVar'', ''Income(USD)'', ''Y'']
     = Some [(''1stVar'', ''v1''), (''Income(USD)'', ''IncomeUS''), (''Y'', ''Y'')]"
proof -
  have b1: "sanitize_body ''1stVar'' ([], {}, 1) = Some ([(''1stVar'', ''v1'')], {''v1''}, 2)"
    by (simp add: sanitize_body.simps Let_def is_word_def is_alpha_def isdigit_def
          sanitize_while_free str_nat.simps digit_def)
  have b2: "sanitize_body ''Income(USD)'' ([(''1stVar'', ''v1'')], {''v1''}, 2)
      = Some ([(''1stVar'', ''v1''), (''Income(USD)'', ''IncomeUS'')], {''IncomeUS'', ''v1''}, 3)"
    by (simp add: sanitize_body.simps Let_def is_word_def is_alpha_def isdigit_def
          sanitize_while_free)
  have b3: "sanitize_body ''Y''
        ([(''1stVar'', ''v1''), (''Income(USD)'', ''IncomeUS'')], {''IncomeUS'', ''v1''}, 3)
      = Some ([(''1stVar'', ''v1''), (''Income(USD)'', ''IncomeUS''), (''Y'', ''Y'')],
          {''Y'', ''IncomeUS'', ''v1''}, 4)"
    by (simp add: sanitize_body.simps Let_def is_word_def is_alpha_def isdigit_def
          sanitize_while_free)
  show ?thesis
    unfolding sanitize_names_def
    by (simp only: sanitize_for.simps b1 b2 b3 option.case option.map fst_conv)
qed

text \<open>
  C1. The claim: the rename audit holds exactly the entries of the mapping whose generated
  identifier differs from the original. The code writes \<open>list(mp.items())\<close>, every entry of
  the mapping. For the columns \<open>1stVar\<close>, \<open>Income(USD)\<close>, \<open>Y\<close> the audit file has three rows, the third one
  mapping \<open>Y\<close> to itself.
\<close>

theorem audit_lists_unchanged_name:
  "artifact_at ''out_variable_map.csv''
     (convert (append ''/work/'') ''y''
        \<lparr>columns = [''1stVar'', ''Income(USD)'', ''Y''], rows = [[1, 2, 3], [4, 5, 6 :: int]]\<rparr>
        ''out'' ''m'' Map.empty)
   = Some (MapFile [(''1stVar'', ''v1''), (''Income(USD)'', ''IncomeUS''), (''Y'', ''Y'')])"
proof -
  let ?df = "\<lparr>columns = [''1stVar'', ''Income(USD)'', ''Y''], rows = [[1, 2, 3], [4, 5, 6 :: int]]\<rparr>"
  let ?m = "[(''1stVar'', ''v1''), (''Income(USD)'', ''IncomeUS''), (''Y'', ''Y'')]"
  have bad: "illegal_names (columns ?df) \<noteq> []"
    by (simp add: illegal_names_scenario)
  have san: "sanitize_names (columns ?df) = Some ?m"
    by (simp add: sanitize_names_scenario)
  have "snd (convert_write (append ''/work/'') (rename ?df ?m) (Some ?m) ''out'' ''m'' Map.empty)
      (''out'' @ ''_variable_map.csv'') = Some (MapFile ?m)"
    by (rule convert_write_map) (simp_all add: rename_def)
  then show ?thesis
    by (simp add: convert_consented [OF bad lower_y san] artifact_at_def)
qed

text \<open>
  C1, amended. When a rename mapping was produced (some identifier is illegal, the user
  consents, \<open>sanitize_names\<close> returns the mapping) and the table has the columns the script
  needs (3, or 4 in the moderated-mediation mode), the rename audit holds every entry of
  the mapping, the unchanged ones included: exactly one row for each column identifier of
  the table, no identifier twice, and in the order of the columns when the column
  identifiers are pairwise distinct.
\<close>

theorem audit_holds_whole_mapping:
  assumes "illegal_names (columns df) \<noteq> []" and "lower answer = ''y''"
    and "sanitize_names (columns df) = Some m"
    and "(if mode = ''w'' then 4 else 3) \<le> length (columns df)"
  shows "artifact_at (prefix @ ''_variable_map.csv'')
           (convert abspath answer df prefix mode fs) = Some (MapFile m)
       \<and> distinct (map fst m)
       \<and> set (map fst m) = set (columns df)
       \<and> (distinct (columns df) \<longrightarrow> map fst m = columns df)"
proof -
  from assms(1) have "columns df \<noteq> []"
    by (auto simp: illegal_names_def)
  with sanitize_names_keys [OF assms(3)] have ne: "m \<noteq> []" by auto
  from assms(4) have "(if mode = ''w'' then 4 else 3) \<le> length (columns (rename df m))"
    by (simp only: length_columns_rename)
  from convert_write_map [OF ne this]
  have written: "artifact_at (prefix @ ''_variable_map.csv'')
      (convert abspath answer df prefix mode fs) = Some (MapFile m)"
    by (simp add: convert_consented [OF assms(1-3)] artifact_at_def)
  have keys: "set (map fst m) = set (columns df)"
    using sanitize_names_keys [OF assms(3)] by simp
  have order: "distinct (columns df) \<longrightarrow> map fst m = columns df"
    using sanitize_names_keys_distinct [OF assms(3)] by blast
  from written sanitize_names_keys_unique [OF assms(3)] keys order show ?thesis
    by blast
qed

lemma sanitize_names_four:
  "sanitize_names [''a b'', ''M'', ''Y'', ''W'']
     = Some [(''a b'', ''ab''), (''M'', ''M''), (''Y'', ''Y''), (''W'', ''W'')]"
proof -
  have b1: "sanitize_body ''a b'' ([], {}, 1) = Some ([(''a b'', ''ab'')], {''ab''}, 2)"
    by (simp add: sanitize_body.simps Let_def is_word_def is_alpha_def isdigit_def
          sanitize_while_free)
  have b2: "sanitize_body ''M'' ([(''a b'', ''ab'')], {''ab''}, 2)
      = Some ([(''a b'', ''ab''), (''M'', ''M'')], {''M'', ''ab''}, 3)"
    by (simp add: sanitize_body.simps Let_def is_word_def is_alpha_def isdigit_def
          sanitize_while_free)
  have b3: "sanitize_body ''Y'' ([(''a b'', ''ab''), (''M'', ''M'')], {''M'', ''ab''}, 3)
      = Some ([(''a b'', ''ab''), (''M'', ''M''), (''Y'', ''Y'')], {''Y'', ''M'', ''ab''}, 4)"
    by (simp add: sanitize_body.simps Let_def is_word_def is_alpha_def isdigit_def
          sanitize_while_free)
  have b4: "sanitize_body ''W''
        ([(''a b'', ''ab''), (''M'', ''M''), (''Y'', ''Y'')], {''Y'', ''M'', ''ab''}, 4)
      = Some ([(''a b'', ''ab''), (''M'', ''M''), (''Y'', ''Y''), (''W'', ''W'')],
          {''W'', ''Y'', ''M'', ''ab''}, 5)"
    by (simp add: sanitize_body.simps Let_def is_word_def is_alpha_def isdigit_def
          sanitize_while_free)
  show ?thesis
    unfolding sanitize_names_def
    by (simp only: sanitize_for.simps b1 b2 b3 b4 option.case option.map fst_conv)
qed

lemma illegal_names_four: "illegal_names [''a b'', ''M'', ''Y'', ''W''] = [''a b'']"
  by (simp add: illegal_names_def is_alpha_def is_word_def)

theorem audit_holds_whole_mapping_witness:
  "artifact_at ''study_variable_map.csv''
     (convert (append ''/work/'') ''Y''
        \<lparr>columns = [''a b'', ''M'', ''Y'', ''W''], rows = [[1, 2, 3, 4 :: int]]\<rparr>
        ''study'' ''w'' Map.empty)
   = Some (MapFile [(''a b'', ''ab''), (''M'', ''M''), (''Y'', ''Y''), (''W'', ''W'')])"
proof -
  let ?df = "\<lparr>columns = [''a b'', ''M'', ''Y'', ''W''], rows = [[1, 2, 3, 4 :: int]]\<rparr>"
  have bad: "illegal_names (columns ?df) \<noteq> []"
    by (simp add: illegal_names_four)
  have san: "sanitize_names (columns ?df)
      = Some [(''a b'', ''ab''), (''M'', ''M''), (''Y'', ''Y''), (''W'', ''W'')]"
    by (simp add: sanitize_names_four)
  have enough: "(if ''w'' = ''w'' then 4 else 3) \<le> length (columns ?df)"
    by simp
  from audit_holds_whole_mapping [where abspath = "append ''/work/''" and prefix = "''study''"
      and fs = Map.empty, OF bad lower_Y san enough, THEN conjunct1]
  show ?thesis by simp
qed

lemma convert_write_inp_med:
  assumes "mode \<noteq> ''w''" and "3 \<le> length (columns df)"
  shows "snd (convert_write abspath df mp prefix mode fs) (prefix @ ''.inp'')
    = Some (InpFile (med_script (columns df ! 0) (columns df ! 1) (columns df ! 2) (columns df)
        (abspath (prefix @ ''.dat''))))"
  using write_inp_med_enough [OF assms(2)] assms(1)
  by (simp add: convert_write_def Let_def)

lemma convert_write_inp_mod:
  assumes "mode = ''w''" and "4 \<le> length (columns df)"
  shows "snd (convert_write abspath df mp prefix mode fs) (prefix @ ''.inp'')
    = Some (InpFile (mod_script (columns df ! 0) (columns df ! 1) (columns df ! 2)
        (columns df ! 3) (columns df) (abspath (prefix @ ''.dat''))))"
  using write_inp_mod_enough [OF assms(2)] assms(1)
  by (simp add: convert_write_def Let_def)

text \<open>
  C7. When \<open>illegal_names\<close> returns the empty list for the columns of the table, the
  conversion goes straight to the writes of lines 89 to 97 with the table as it was read and
  with no rename mapping: it does not depend on \<open>sanitize_names\<close>, the data file is
  written from the original table, no rename audit is written, and the script, when the
  table has the columns its template needs, is the one rendered from the original column
  identifiers: the first three (four) in the roles and all of them in the listing.
\<close>

theorem convert_legal_names:
  assumes "illegal_names (columns df) = []"
  shows "convert abspath answer df prefix mode fs
           = Some (convert_write abspath df None prefix mode fs)
       \<and> artifact_at (prefix @ ''.dat'') (convert abspath answer df prefix mode fs)
           = Some (DatFile df)
       \<and> artifact_at (prefix @ ''_variable_map.csv'')
             (convert abspath answer df prefix mode fs)
           = fs (prefix @ ''_variable_map.csv'')
       \<and> (mode \<noteq> ''w'' \<and> 3 \<le> length (columns df) \<longrightarrow>
            artifact_at (prefix @ ''.inp'') (convert abspath answer df prefix mode fs)
              = Some (InpFile (med_script (columns df ! 0) (columns df ! 1) (columns df ! 2)
                  (columns df) (abspath (prefix @ ''.dat'')))))
       \<and> (mode = ''w'' \<and> 4 \<le> length (columns df) \<longrightarrow>
            artifact_at (prefix @ ''.inp'') (convert abspath answer df prefix mode fs)
              = Some (InpFile (mod_script (columns df ! 0) (columns df ! 1) (columns df ! 2)
                  (columns df ! 3) (columns df) (abspath (prefix @ ''.dat'')))))"
proof -
  have c: "convert abspath answer df prefix mode fs
      = Some (convert_write abspath df None prefix mode fs)"
    using assms by (simp add: convert_def)
  have dat: "artifact_at (prefix @ ''.dat'') (convert abspath answer df prefix mode fs)
      = Some (DatFile df)"
    using convert_write_dat [of abspath df None prefix mode fs]
    by (simp add: c artifact_at_def)
  have aud: "artifact_at (prefix @ ''_variable_map.csv'')
      (convert abspath answer df prefix mode fs) = fs (prefix @ ''_variable_map.csv'')"
    using convert_write_no_map [of abspath df prefix mode fs]
    by (simp add: c artifact_at_def)
  have med: "mode \<noteq> ''w'' \<and> 3 \<le> length (columns df) \<longrightarrow>
      artifact_at (prefix @ ''.inp'') (convert abspath answer df prefix mode fs)
        = Some (InpFile (med_script (columns df ! 0) (columns df ! 1) (columns df ! 2)
            (columns df) (abspath (prefix @ ''.dat''))))"
  proof
    assume "mode \<noteq> ''w'' \<and> 3 \<le> length (columns df)"
    then have "snd (convert_write abspath df None prefix mode fs) (prefix @ ''.inp'')
        = Some (InpFile (med_script (columns df ! 0) (columns df ! 1) (columns df ! 2)
            (columns df) (abspath (prefix @ ''.dat''))))"
      by (intro convert_write_inp_med) simp_all
    then show "artifact_at (prefix @ ''.inp'') (convert abspath answer df prefix mode fs)
        = Some (InpFile (med_script (columns df ! 0) (columns df ! 1) (columns df ! 2)
            (columns df) (abspath (prefix @ ''.dat''))))"
      by (simp only: c artifact_at_def option.case)
  qed
  have mod: "mode = ''w'' \<and> 4 \<le> length (columns df) \<longrightarrow>
      artifact_at (prefix @ ''.inp'') (convert abspath answer df prefix mode fs)
        = Some (InpFile (mod_script (columns df ! 0) (columns df ! 1) (columns df ! 2)
            (columns df ! 3) (columns df) (abspath (prefix @ ''.dat''))))"
  proof
    assume "mode = ''w'' \<and> 4 \<le> length (columns df)"
    then have "snd (convert_write abspath df None prefix mode fs) (prefix @ ''.inp'')
        = Some (InpFile (mod_script (columns df ! 0) (columns df ! 1) (columns df ! 2)
            (columns df ! 3) (columns df) (abspath (prefix @ ''.dat''))))"
      by (intro convert_write_inp_mod) simp_all
    then show "artifact_at (prefix @ ''.inp'') (convert abspath answer df prefix mode fs)
        = Some (InpFile (mod_script (columns df ! 0) (columns df ! 1) (columns df ! 2)
            (columns df ! 3) (columns df) (abspath (prefix @ ''.dat''))))"
      by (simp only: c artifact_at_def option.case)
  qed
  from c dat aud med mod show ?thesis by blast
qed

lemma illegal_names_XMY: "illegal_names [''X'', ''M'', ''Y''] = []"
  by (simp add: illegal_names_def is_alpha_def is_word_def)

theorem convert_legal_names_witness:
  "artifact_at ''out.dat''
     (convert (append ''/work/'') ''''
        \<lparr>columns = [''X'', ''M'', ''Y''], rows = [[1, 2, 3], [4, 5, 6 :: int]]\<rparr>
        ''out'' ''m'' Map.empty)
     = Some (DatFile \<lparr>columns = [''X'', ''M'', ''Y''], rows = [[1, 2, 3], [4, 5, 6]]\<rparr>)
   \<and> artifact_at ''out_variable_map.csv''
     (convert (append ''/work/'') ''''
        \<lparr>columns = [''X'', ''M'', ''Y''], rows = [[1, 2, 3], [4, 5, 6 :: int]]\<rparr>
        ''out'' ''m'' Map.empty)
     = None
   \<and> artifact_at ''out.inp''
     (convert (append ''/work/'') ''''
        \<lparr>columns = [''X'', ''M'', ''Y''], rows = [[1, 2, 3], [4, 5, 6 :: int]]\<rparr>
        ''out'' ''m'' Map.empty)
     = Some (InpFile (med_script ''X'' ''M'' ''Y'' [''X'', ''M'', ''Y''] ''/work/out.dat''))"
proof -
  have legal: "illegal_names
      (columns \<lparr>columns = [''X'', ''M'', ''Y''], rows = [[1, 2, 3], [4, 5, 6 :: int]]\<rparr>) = []"
    by (simp add: illegal_names_XMY)
  from convert_legal_names [where abspath = "append ''/work/''" and answer = "''''"
      and prefix = "''out''" and mode = "''m''" and fs = Map.empty, OF legal, THEN conjunct2]
  show ?thesis by simp
qed

text \<open>
  C9. When some column identifier is illegal and the answer at the prompt is not a yes, the
  conversion ends with the naming error and the file system is what it was: no data file,
  no script and no rename audit is written.
\<close>

theorem convert_declined:
  assumes "illegal_names (columns df) \<noteq> []" and "lower answer \<noteq> ''y''"
  shows "convert abspath answer df prefix mode fs = Some (Raised NamingError, fs)"
  using assms by (simp add: convert_def)

theorem convert_declined_witness:
  "convert (append ''/work/'') ''n''
     \<lparr>columns = [''1stVar'', ''Income(USD)'', ''Y''], rows = [[1, 2, 3], [4, 5, 6 :: int]]\<rparr>
     ''out'' ''m'' Map.empty
   = Some (Raised NamingError, Map.empty)"
  using convert_declined
    [of "\<lparr>columns = [''1stVar'', ''Income(USD)'', ''Y''], rows = [[1, 2, 3], [4, 5, 6 :: int]]\<rparr>"
      "''n''" "append ''/work/''" "''out''" "''m''" Map.empty]
  by (simp add: illegal_names_scenario lower_def lower_chr_def)

section \<open>Properties of reading a CSV file\<close>





end
